theory Spec2Isabelle
  imports Complex_Main "HOL-Library.Word" "HOL-Library.Signed_Division" "HOL-Library.Multiset"
begin

section \<open>Sessions (session.go)\<close>

subsection \<open>Data model\<close>

text \<open>
  \<^verbatim>\<open>time.Duration\<close> is an \<^verbatim>\<open>int64\<close> count of nanoseconds: a 64-bit word read as
  two's complement, so that \<^verbatim>\<open>2 * session.LockDelay\<close> wraps as it does in Go and
  \<^verbatim>\<open>session.TTL / 3\<close> truncates towards zero.  Instants (\<^verbatim>\<open>time.Time\<close>) are
  nanoseconds on an unbounded time line.
\<close>

type_synonym duration = "64 word"
type_synonym time = int

definition Second :: duration where
  "Second = 1000000000"

definition time_Add :: "time \<Rightarrow> duration \<Rightarrow> time" where
  "time_Add t d = t + sint d"

definition time_Before :: "time \<Rightarrow> time \<Rightarrow> bool" where
  "time_Before t u = (t < u)"

text \<open>Go's \<^verbatim>\<open>error\<close> values that travel through this file; \<^verbatim>\<open>nil\<close> is \<open>None\<close>.\<close>

datatype error = Canceled | DeadlineExceeded | RequestError string

type_synonym SessionID = string
type_synonym SessionBehavior = string

definition Release :: SessionBehavior where
  "Release = ''release''"

definition Delete :: SessionBehavior where
  "Delete = ''delete''"

record Client =
  Address :: string
  UserAgent :: string
  Datacenter :: string
  ClientSession :: SessionID

definition DefaultClient :: Client where
  "DefaultClient = \<lparr>Address = [], UserAgent = [], Datacenter = [], ClientSession = []\<rparr>"

record Session =
  Client :: "Client option"
  Name :: string
  ID :: SessionID
  Behavior :: SessionBehavior
  LockDelay :: duration
  TTL :: duration

record sessionConfig =
  cfgName :: string
  cfgBehavior :: string
  cfgLockDelay :: duration
  cfgTTL :: string

text \<open>
  Context keys and values are \<^verbatim>\<open>interface{}\<close> in Go.  \<open>SessionKey\<close> is the one
  package-level key; every other key a caller may use is a \<open>UserKey\<close>.
\<close>

datatype 'k key = SessionKey | UserKey 'k

datatype 'v any = NoValue | SessionValue Session | UserValue 'v

text \<open>
  The parent \<^verbatim>\<open>context.Context\<close>, as far as this file reads it: its deadline, its
  values and its error (\<open>None\<close> until it is done).
\<close>

record ('k, 'v) Context =
  ctx_Deadline :: "time \<times> bool"
  ctx_Value :: "'k key \<Rightarrow> 'v any"
  ctx_Err :: "error option"

definition ctx_Done :: "('k, 'v) Context \<Rightarrow> bool" where
  "ctx_Done c = (ctx_Err c \<noteq> None)"

text \<open>
  Which context an agent operation runs under: a fresh one derived from
  \<^verbatim>\<open>context.Background()\<close>, one derived from the caller's parent context, or one
  derived from the session context itself.
\<close>

datatype origin = Background | ParentCtx | SessionCtx

text \<open>
  The observable effects, in the order in which they happen.  Each agent operation
  records the context it was derived from, its timeout, its argument and the
  result the agent gave.
\<close>

datatype effect =
    CreateCall origin duration sessionConfig "error option"
  | RenewCall origin duration string "error option"
  | DestroyCall origin duration string "error option"
  | StoreErr error
  | CloseDone
  | NewTicker duration
  | TickerStop
  | GoRun time

text \<open>
  \<^verbatim>\<open>sessionCtx\<close>: \<open>err\<close> is the \<^verbatim>\<open>atomic.Value\<close>, \<open>once\<close> is whether the
  \<^verbatim>\<open>sync.Once\<close> has fired, \<open>done_ch\<close> is whether the \<^verbatim>\<open>done\<close> channel is closed.  \<open>trace\<close> lists
  the effects of this context's methods and of its renewal task.
\<close>

record ('k, 'v) sessionCtx =
  session :: Session
  ctx :: "('k, 'v) Context"
  err :: "error option"
  once :: bool
  done_ch :: bool
  trace :: "effect list"

subsection \<open>Accessors\<close>

definition Deadline :: "('k, 'v) sessionCtx \<Rightarrow> time \<times> bool" where
  "Deadline s = ctx_Deadline (ctx s)"

definition Done :: "('k, 'v) sessionCtx \<Rightarrow> bool" where
  "Done s = done_ch s"

definition Err :: "('k, 'v) sessionCtx \<Rightarrow> error option" where
  "Err s = err s"

definition Value :: "('k, 'v) sessionCtx \<Rightarrow> 'k key \<Rightarrow> 'v any" where
  "Value s k = (if k = SessionKey then SessionValue (session s) else ctx_Value (ctx s) k)"

definition id_of :: "('k, 'v) sessionCtx \<Rightarrow> string" where
  "id_of s = ID (session s)"

subsection \<open>Teardown\<close>

text \<open>
  \<^verbatim>\<open>cancelWithError\<close>: the body runs under \<^verbatim>\<open>s.once.Do\<close>, so only while \<open>once\<close> is
  still unset.  \<open>r\<close> is what the agent answers to the destroy request; the source
  drops it.
\<close>

definition cancelWithError ::
  "error option \<Rightarrow> error \<Rightarrow> ('k, 'v) sessionCtx \<Rightarrow> ('k, 'v) sessionCtx" where
  "cancelWithError r e s =
     (if once s then s
      else s\<lparr>err := Some e, once := True, done_ch := True,
             trace := trace s @
               [StoreErr e, CloseDone,
                DestroyCall Background (LockDelay (session s)) (id_of s) r]\<rparr>)"

definition cancel :: "error option \<Rightarrow> ('k, 'v) sessionCtx \<Rightarrow> ('k, 'v) sessionCtx" where
  "cancel r s = cancelWithError r Canceled s"

text \<open>
  The three places that ask for teardown: \<^verbatim>\<open>cancel\<close> (with \<^verbatim>\<open>context.Canceled\<close>), the
  parent branch of \<^verbatim>\<open>run\<close> (with the parent's error) and its renewal branch (with the
  renew error).  \<open>requests\<close> is a sequence of such calls on one context, each with
  the answer the agent would give to a destroy request.
\<close>

datatype cause = ExplicitCancel | ParentTermination error | RenewalFailure error

fun cause_error :: "cause \<Rightarrow> error" where
  "cause_error ExplicitCancel = Canceled"
| "cause_error (ParentTermination e) = e"
| "cause_error (RenewalFailure e) = e"

fun requests :: "(cause \<times> error option) list \<Rightarrow> ('k, 'v) sessionCtx \<Rightarrow> ('k, 'v) sessionCtx" where
  "requests [] s = s"
| "requests ((c, r) # cs) s = requests cs (cancelWithError r (cause_error c) s)"

fun is_destroy :: "effect \<Rightarrow> bool" where
  "is_destroy (DestroyCall og d i r) = True"
| "is_destroy _ = False"

fun is_store :: "effect \<Rightarrow> bool" where
  "is_store (StoreErr e) = True"
| "is_store _ = False"

subsection \<open>The renewal task\<close>

text \<open>
  Go's \<^verbatim>\<open>/\<close> on \<^verbatim>\<open>int64\<close>: the quotient truncated towards zero (the divisor is
  the constant 3 in this file, so the division never panics).
\<close>

definition duration_div :: "duration \<Rightarrow> duration \<Rightarrow> duration" where
  "duration_div a b = word_of_int (sint a sdiv sint b)"

text \<open>
  One pass through the \<^verbatim>\<open>select\<close> of \<^verbatim>\<open>run\<close>.  The case that fires is given from
  outside, with what the agent answers: \<open>rr\<close> to the renew request, \<open>r\<close> to the
  destroy request (should teardown run).  A case whose channel is not ready cannot
  fire: \<open>None\<close>.
\<close>

datatype select_case =
    SelectDone
  | SelectParent "error option"
  | SelectTick time "error option" "error option"

datatype ('k, 'v) outcome =
    Continue "('k, 'v) sessionCtx" time
  | Return "('k, 'v) sessionCtx"

fun iteration ::
  "duration \<Rightarrow> select_case \<Rightarrow> time \<Rightarrow> ('k, 'v) sessionCtx \<Rightarrow> ('k, 'v) outcome option" where
  "iteration timeout SelectDone deadline s =
     (if done_ch s then Some (Return s) else None)"
| "iteration timeout (SelectParent r) deadline s =
     (case ctx_Err (ctx s) of
        None \<Rightarrow> None
      | Some e \<Rightarrow> Some (Return (cancelWithError r e s)))"
| "iteration timeout (SelectTick now rr r) deadline s =
     (let s1 = s\<lparr>trace := trace s @ [RenewCall SessionCtx timeout (id_of s) rr]\<rparr>
      in case rr of
           Some e \<Rightarrow>
             if time_Before now deadline then Some (Continue s1 deadline)
             else Some (Return (cancelWithError r e s1))
         | None \<Rightarrow> Some (Continue s1 (time_Add now (TTL (session s)))))"

text \<open>
  What happens around the task, between two passes of its loop: the caller invokes
  the cancel function, or the parent context ends.
\<close>

datatype event =
    Select select_case
  | CallerCancels "error option"
  | ParentEnds error

datatype task = Waiting time | Returned

fun step :: "duration \<Rightarrow> event \<Rightarrow> ('k, 'v) sessionCtx \<times> task \<Rightarrow> (('k, 'v) sessionCtx \<times> task) option" where
  "step timeout (Select c) (s, Waiting deadline) =
     (case iteration timeout c deadline s of
        None \<Rightarrow> None
      | Some (Continue s' deadline') \<Rightarrow> Some (s', Waiting deadline')
      | Some (Return s') \<Rightarrow> Some (s'\<lparr>trace := trace s' @ [TickerStop]\<rparr>, Returned))"
| "step timeout (Select c) (s, Returned) = None"
| "step timeout (CallerCancels r) (s, t) = Some (cancel r s, t)"
| "step timeout (ParentEnds e) (s, t) =
     (if ctx_Done (ctx s) then None
      else Some (s\<lparr>ctx := (ctx s)\<lparr>ctx_Err := Some e\<rparr>\<rparr>, t))"

fun steps :: "duration \<Rightarrow> event list \<Rightarrow> ('k, 'v) sessionCtx \<times> task \<Rightarrow> (('k, 'v) sessionCtx \<times> task) option" where
  "steps timeout [] st = Some st"
| "steps timeout (x # xs) st =
     (case step timeout x st of None \<Rightarrow> None | Some st' \<Rightarrow> steps timeout xs st')"

text \<open>
  \<^verbatim>\<open>run\<close>: \<^verbatim>\<open>time.NewTicker\<close> panics on a period that is not positive; otherwise the
  task goes through the schedule it is given.
\<close>

datatype run_error = TickerPanic | NotReady

definition run ::
  "time \<Rightarrow> event list \<Rightarrow> ('k, 'v) sessionCtx \<Rightarrow> run_error + (('k, 'v) sessionCtx \<times> task)" where
  "run deadline sched s =
     (let timeout = duration_div (TTL (session s)) 3
      in if timeout \<le>s 0 then Inl TickerPanic
         else case steps timeout sched (s\<lparr>trace := trace s @ [NewTicker timeout]\<rparr>, Waiting deadline) of
                None \<Rightarrow> Inl NotReady
              | Some st \<Rightarrow> Inr st)"

text \<open>
  The renew calls in the trace of a context, checked one by one: each was issued
  under a context derived from the session context, with the timeout \<open>T\<close> and for
  the session identifier \<open>i\<close>.
\<close>

fun renew_from :: "duration \<Rightarrow> string \<Rightarrow> effect \<Rightarrow> bool" where
  "renew_from T i (RenewCall og d j rr) = (og = SessionCtx \<and> d = T \<and> j = i)"
| "renew_from T i _ = True"

definition renews_ok :: "duration \<Rightarrow> ('k, 'v) sessionCtx \<Rightarrow> bool" where
  "renews_ok timeout s = list_all (renew_from timeout (ID (session s))) (trace s)"

text \<open>
  \<^verbatim>\<open>newSessionCtx\<close> returns the context and starts \<^verbatim>\<open>run\<close> with the first expiry
  deadline; \<open>now\<close> is what \<^verbatim>\<open>time.Now()\<close> reads.
\<close>

definition newSessionCtx ::
  "time \<Rightarrow> ('k, 'v) Context \<Rightarrow> Session \<Rightarrow> ('k, 'v) sessionCtx \<times> effect" where
  "newSessionCtx now c sess =
     (\<lparr>session = sess, ctx = c, err = None, once = False, done_ch = False, trace = []\<rparr>,
      GoRun (time_Add now (TTL sess)))"

text \<open>
  A context derived with \<^verbatim>\<open>context.WithTimeout\<close> is done as soon as the context it
  was derived from is done (or its own timer has expired).
\<close>

definition origin_Done :: "origin \<Rightarrow> ('k, 'v) sessionCtx \<Rightarrow> bool" where
  "origin_Done og s =
     (case og of Background \<Rightarrow> False | ParentCtx \<Rightarrow> ctx_Done (ctx s) | SessionCtx \<Rightarrow> Done s)"

definition WithTimeout_Done :: "origin \<Rightarrow> ('k, 'v) sessionCtx \<Rightarrow> bool \<Rightarrow> bool" where
  "WithTimeout_Done og s expired = (origin_Done og s \<or> expired)"

subsection \<open>WithSession\<close>

text \<open>The defaults of \<^verbatim>\<open>WithSession\<close>, in the order of the source.\<close>

definition defaults :: "Session \<Rightarrow> Session" where
  "defaults sess0 =
     (let sess1 = (if Client sess0 = None then sess0\<lparr>Client := Some DefaultClient\<rparr> else sess0);
          sess2 = (if length (Behavior sess1) = 0 then sess1\<lparr>Behavior := Release\<rparr> else sess1);
          sess3 = (if LockDelay sess2 = 0 then sess2\<lparr>LockDelay := 15 * Second\<rparr> else sess2);
          sess4 = (if TTL sess3 = 0 then sess3\<lparr>TTL := 2 * LockDelay sess3\<rparr> else sess3)
      in sess4)"

text \<open>
  What \<^verbatim>\<open>WithSession\<close> returns: the error context or the session context.

  Modelled from the spec: \<^verbatim>\<open>errorContext\<close> is not in this file.  The spec says of it
  that it "returns an already-cancelled derived context carrying that error": a
  context over the parent whose \<^verbatim>\<open>Done\<close> channel is closed and whose \<^verbatim>\<open>Err\<close> is the
  error it was given.
\<close>

datatype ('k, 'v) derived =
    ErrorCtx "('k, 'v) Context" error
  | SessionCtxOf "('k, 'v) sessionCtx"

definition errorContext :: "('k, 'v) Context \<Rightarrow> error \<Rightarrow> ('k, 'v) derived" where
  "errorContext c e = ErrorCtx c e"

fun derived_Done :: "('k, 'v) derived \<Rightarrow> bool" where
  "derived_Done (ErrorCtx c e) = True"
| "derived_Done (SessionCtxOf s) = Done s"

fun derived_Err :: "('k, 'v) derived \<Rightarrow> error option" where
  "derived_Err (ErrorCtx c e) = Some e"
| "derived_Err (SessionCtxOf s) = Err s"

text \<open>
  \<^verbatim>\<open>WithSession\<close>.  \<open>seconds\<close> is the helper that renders the TTL for the request (it
  is not in this file), \<open>now\<close> is what \<^verbatim>\<open>time.Now()\<close> reads and \<open>answer\<close> is the agent's
  answer to the create request: the session identifier and the error.  The result is
  the derived context with the effects of the call.
\<close>

definition createRequest :: "(duration \<Rightarrow> string) \<Rightarrow> Session \<Rightarrow> sessionConfig" where
  "createRequest seconds sess =
     \<lparr>cfgName = Name sess, cfgBehavior = Behavior sess,
      cfgLockDelay = LockDelay sess, cfgTTL = seconds (TTL sess)\<rparr>"

definition WithSession ::
  "(duration \<Rightarrow> string) \<Rightarrow> time \<Rightarrow> string \<times> error option \<Rightarrow>
   ('k, 'v) Context \<Rightarrow> Session \<Rightarrow> ('k, 'v) derived \<times> effect list" where
  "WithSession seconds now answer c sess0 =
     (let sess = defaults sess0;
          call = CreateCall ParentCtx (LockDelay sess) (createRequest seconds sess) (snd answer)
      in case snd answer of
           Some e \<Rightarrow> (errorContext c e, [call])
         | None \<Rightarrow>
             (let (s, g) = newSessionCtx now c (sess\<lparr>ID := fst answer\<rparr>)
              in (SessionCtxOf s, [call, g])))"

section \<open>Balancers\<close>

subsection \<open>Endpoints\<close>

text \<open>
  \<^verbatim>\<open>Endpoint\<close>, with the fields of the source (prefixed, since \<^verbatim>\<open>ID\<close> is a field of
  \<^verbatim>\<open>Session\<close> too).  The address is kept as its text, the metadata as a map.
  \<open>expWeight\<close> is the field that the weighted shuffle writes.  It is a \<^verbatim>\<open>float64\<close>;
  the type \<open>'f\<close> stands for \<^verbatim>\<open>float64\<close>, whose product and comparison are taken
  from outside (see \<open>library\<close> below).
\<close>

record 'f Endpoint =
  eID :: string
  eNode :: string
  eAddr :: string
  eTags :: "string list"
  eMeta :: "string \<rightharpoonup> string"
  eRTT :: duration
  expWeight :: 'f


subsection \<open>What the shuffles take from Go's library\<close>

text \<open>
  The product and the comparison of \<^verbatim>\<open>float64\<close>, and \<^verbatim>\<open>sort.Sort\<close>.  \<^verbatim>\<open>sort.Sort\<close> sees
  a slice through \<^verbatim>\<open>Len\<close> and \<^verbatim>\<open>Less\<close> only and changes it through \<^verbatim>\<open>Swap\<close> only:
  \<open>sort_swaps lt n\<close> is the sequence of its \<^verbatim>\<open>Swap\<close> calls on a slice of length \<open>n\<close>
  whose elements compare by \<open>lt\<close> as the slice is when \<^verbatim>\<open>sort.Sort\<close> is called.
  Nothing is assumed of the order it produces (it need not be stable).
\<close>

record 'f library =
  float_mul :: "'f \<Rightarrow> 'f \<Rightarrow> 'f"
  float_less :: "'f \<Rightarrow> 'f \<Rightarrow> bool"
  sort_swaps :: "(nat \<Rightarrow> nat \<Rightarrow> bool) \<Rightarrow> nat \<Rightarrow> (nat \<times> nat) list"


text \<open>
  A \<^verbatim>\<open>rand.Rand\<close> is the two sequences of draws it is going to give: raw numbers for
  \<^verbatim>\<open>Intn\<close>, which reduces them below its argument, and the results of
  \<^verbatim>\<open>ExpFloat64\<close>.  A draw moves the sequence on by one.  (\<^verbatim>\<open>Intn\<close> panics on an
  argument that is not positive; it is only called with \<open>i + 1\<close>.)
\<close>

record 'f Rand =
  ints :: "nat \<Rightarrow> nat"
  exps :: "nat \<Rightarrow> 'f"

definition Intn :: "nat \<Rightarrow> 'f Rand \<Rightarrow> nat \<times> 'f Rand" where
  "Intn n rng = (ints rng 0 mod n, rng\<lparr>ints := (\<lambda>k. ints rng (Suc k))\<rparr>)"

definition ExpFloat64 :: "'f Rand \<Rightarrow> 'f \<times> 'f Rand" where
  "ExpFloat64 rng = (exps rng 0, rng\<lparr>exps := (\<lambda>k. exps rng (Suc k))\<rparr>)"

subsection \<open>Shuffle and WeightedShuffle\<close>

text \<open>
  \<^verbatim>\<open>Shuffle\<close>: for each index \<open>i\<close> of the list, from the first one on, draw
  \<open>j = Intn (i + 1)\<close> and exchange the elements at \<open>i\<close> and \<open>j\<close>.  The result is the list
  and the generator as they are afterwards (the source changes the list in place and
  puts the generator back into its pool).
\<close>

definition Shuffle_step :: "'a list \<times> 'f Rand \<Rightarrow> nat \<Rightarrow> 'a list \<times> 'f Rand" where
  "Shuffle_step st i =
     (let (list, rng) = st;
          (j, rng') = Intn (i + 1) rng
      in (list[i := list ! j, j := list ! i], rng'))"

definition Shuffle :: "'a list \<Rightarrow> 'f Rand \<Rightarrow> 'a list \<times> 'f Rand" where
  "Shuffle list rng = foldl Shuffle_step (list, rng) [0..<length list]"

text \<open>\<^verbatim>\<open>byExpWeight\<close>: the three methods that \<^verbatim>\<open>sort.Sort\<close> works with.\<close>

definition byExpWeight_Len :: "'f Endpoint list \<Rightarrow> nat" where
  "byExpWeight_Len list = length list"

definition byExpWeight_Less :: "'f library \<Rightarrow> 'f Endpoint list \<Rightarrow> nat \<Rightarrow> nat \<Rightarrow> bool" where
  "byExpWeight_Less lib list i j = float_less lib (expWeight (list ! i)) (expWeight (list ! j))"

definition byExpWeight_Swap :: "'f Endpoint list \<Rightarrow> nat \<Rightarrow> nat \<Rightarrow> 'f Endpoint list" where
  "byExpWeight_Swap list i j = list[i := list ! j, j := list ! i]"

definition sort_Sort :: "'f library \<Rightarrow> 'f Endpoint list \<Rightarrow> 'f Endpoint list" where
  "sort_Sort lib list =
     foldl (\<lambda>l (i, j). byExpWeight_Swap l i j) list
       (sort_swaps lib (byExpWeight_Less lib list) (byExpWeight_Len list))"

text \<open>
  \<^verbatim>\<open>WeightedShuffle\<close>: for each index \<open>i\<close> of the list, write
  \<open>weightOf (list[i]) * ExpFloat64 ()\<close> into \<open>list[i].expWeight\<close>; then sort the list by
  \<open>expWeight\<close>.
\<close>

definition weigh_step ::
  "'f library \<Rightarrow> ('f Endpoint \<Rightarrow> 'f) \<Rightarrow> 'f Endpoint list \<times> 'f Rand \<Rightarrow> nat \<Rightarrow> 'f Endpoint list \<times> 'f Rand" where
  "weigh_step lib weightOf st i =
     (let (list, rng) = st;
          (d, rng') = ExpFloat64 rng
      in (list[i := (list ! i)\<lparr>expWeight := float_mul lib (weightOf (list ! i)) d\<rparr>], rng'))"

definition WeightedShuffle ::
  "'f library \<Rightarrow> 'f Endpoint list \<Rightarrow> ('f Endpoint \<Rightarrow> 'f) \<Rightarrow> 'f Rand \<Rightarrow> 'f Endpoint list \<times> 'f Rand" where
  "WeightedShuffle lib list weightOf rng =
     (let (list', rng') = foldl (weigh_step lib weightOf) (list, rng) [0..<length list]
      in (sort_Sort lib list', rng'))"

subsection \<open>Strategies\<close>

text \<open>
  The strategies are named by \<^verbatim>\<open>balancer_test.go\<close> (\<^verbatim>\<open>RoundRobin\<close>, \<^verbatim>\<open>PreferTags\<close>,
  \<^verbatim>\<open>MultiBalancer\<close>, \<^verbatim>\<open>Shuffler\<close>, \<^verbatim>\<open>WeightedShuffler\<close> with its field \<^verbatim>\<open>WeightOf\<close>,
  \<^verbatim>\<open>LoadBalancer\<close> with its field \<^verbatim>\<open>New\<close>); their code is not among the sources.

  Modelled from the spec: the strategy types are missing.  A rotation holds its
  counter; tag affinity and the shuffles hold their configuration only; a
  composition holds its strategies.
\<close>

datatype 'f Balancer =
    RoundRobin nat
  | PreferTags "string list"
  | MultiBalancer "'f Balancer list"
  | Shuffler
  | WeightedShuffler "'f Endpoint \<Rightarrow> 'f"

text \<open>The list from index \<open>k\<close> on, followed by what was before it.\<close>

definition rotated :: "nat \<Rightarrow> 'a list \<Rightarrow> 'a list" where
  "rotated k xs = drop k xs @ take k xs"

definition has_tag :: "string list \<Rightarrow> 'f Endpoint \<Rightarrow> bool" where
  "has_tag tags e = list_ex (\<lambda>t. t \<in> set tags) (eTags e)"

text \<open>
  Modelled from the spec: the \<^verbatim>\<open>Balance\<close> methods of the strategies are missing.
  Rotation: "each call advances the counter by one and returns the list rotated so
  that the element at counter mod length is first" (on the empty list there is
  nothing to rotate).
  Tag affinity: "stably partitions the list so endpoints matching at least one
  preferred tag precede those that do not".
  Composition: "applies a sequence of strategies left to right, each receiving the
  previous strategy's output".
  The shuffles: "thin adapters" over \<^verbatim>\<open>Shuffle\<close> and \<^verbatim>\<open>WeightedShuffle\<close>.
  The result is the reordered list with the strategy and the generator as they are
  after the call.
\<close>

fun Balance ::
    "'f library \<Rightarrow> 'f Balancer \<Rightarrow> string \<Rightarrow> 'f Endpoint list \<Rightarrow> 'f Rand \<Rightarrow>
     'f Endpoint list \<times> 'f Balancer \<times> 'f Rand"
  and Balance_each ::
    "'f library \<Rightarrow> 'f Balancer list \<Rightarrow> string \<Rightarrow> 'f Endpoint list \<Rightarrow> 'f Rand \<Rightarrow>
     'f Endpoint list \<times> 'f Balancer list \<times> 'f Rand"
  where
  "Balance lib (RoundRobin counter) name es src =
     (if es = [] then (es, RoundRobin (counter + 1), src)
      else (rotated ((counter + 1) mod length es) es, RoundRobin (counter + 1), src))"
| "Balance lib (PreferTags tags) name es src =
     (filter (has_tag tags) es @ filter (\<lambda>e. \<not> has_tag tags e) es, PreferTags tags, src)"
| "Balance lib (MultiBalancer bs) name es src =
     (let (es', bs', src') = Balance_each lib bs name es src
      in (es', MultiBalancer bs', src'))"
| "Balance lib Shuffler name es src =
     (let (es', src') = Shuffle es src
      in (es', Shuffler, src'))"
| "Balance lib (WeightedShuffler weightOf) name es src =
     (let (es', src') = WeightedShuffle lib es weightOf src
      in (es', WeightedShuffler weightOf, src'))"
| "Balance_each lib [] name es src = (es, [], src)"
| "Balance_each lib (b # bs) name es src =
     (let (es1, b', src1) = Balance lib b name es src;
          (es2, bs', src2) = Balance_each lib bs name es1 src1
      in (es2, b' # bs', src2))"


subsection \<open>The per-service load balancer\<close>



text \<open>
  \<open>n\<close> consecutive calls of one strategy instance on the same input list: the results
  in the order of the calls, and the instance after the last call.
\<close>

fun consecutive ::
  "nat \<Rightarrow> 'f library \<Rightarrow> 'f Balancer \<Rightarrow> string \<Rightarrow> 'f Endpoint list \<Rightarrow> 'f Rand \<Rightarrow>
   'f Endpoint list list \<times> 'f Balancer" where
  "consecutive 0 lib b name es src = ([], b)"
| "consecutive (Suc n) lib b name es src =
     (let (r, b', src') = Balance lib b name es src;
          (rs, b'') = consecutive n lib b' name es src'
      in (r # rs, b''))"

section \<open>Sample inputs\<close>

definition sample_parent :: "(string, string) Context" where
  "sample_parent =
     \<lparr>ctx_Deadline = (90000000000, True),
      ctx_Value = (\<lambda>k. if k = UserKey ''user'' then UserValue ''alice'' else NoValue),
      ctx_Err = None\<rparr>"

definition sample_session :: Session where
  "sample_session =
     \<lparr>Client = Some DefaultClient, Name = ''lock'', ID = ''sid-1'', Behavior = Release,
      LockDelay = 15 * Second, TTL = 30 * Second\<rparr>"

definition sample_ctx :: "(string, string) sessionCtx" where
  "sample_ctx = fst (newSessionCtx 0 sample_parent sample_session)"

text \<open>
  Three endpoints as a caller builds them: \<open>expWeight\<close> is not exported, so it is zero.
  The weights and draws below are whole numbers and halves, on which the product of
  \<^verbatim>\<open>float64\<close> and the product of the reals agree.
\<close>

definition sample_endpoints :: "real Endpoint list" where
  "sample_endpoints =
     [\<lparr>eID = ''a'', eNode = ''n1'', eAddr = ''10.0.0.1:80'', eTags = [''us-west-2a''],
       eMeta = Map.empty, eRTT = 10000000, expWeight = 0\<rparr>,
      \<lparr>eID = ''b'', eNode = ''n2'', eAddr = ''10.0.0.2:80'', eTags = [''us-west-2b''],
       eMeta = Map.empty, eRTT = 200000000, expWeight = 0\<rparr>,
      \<lparr>eID = ''c'', eNode = ''n3'', eAddr = ''10.0.0.3:80'', eTags = [''us-west-2a''],
       eMeta = Map.empty, eRTT = 0, expWeight = 0\<rparr>]"

definition sample_rand :: "real Rand" where
  "sample_rand =
     \<lparr>ints = (\<lambda>k. 7 + 3 * k),
      exps = (\<lambda>k. if k = 0 then 1 / 2 else if k = 1 then 3 else 2)\<rparr>"


text \<open>
  A sample of \<^verbatim>\<open>sort.Sort\<close>: the \<^verbatim>\<open>Swap\<close> calls of an insertion sort, which is what
  \<^verbatim>\<open>sort.Sort\<close> does on a short slice.  \<open>p\<close> lists, for each position, the index that
  its element had at the start.
\<close>

fun sink_swaps :: "(nat \<Rightarrow> nat \<Rightarrow> bool) \<Rightarrow> nat \<Rightarrow> nat list \<Rightarrow> (nat \<times> nat) list \<times> nat list" where
  "sink_swaps lt 0 p = ([], p)"
| "sink_swaps lt (Suc j) p =
     (if lt (p ! Suc j) (p ! j)
      then (let (sw, p') = sink_swaps lt j (p[Suc j := p ! j, j := p ! Suc j])
            in ((Suc j, j) # sw, p'))
      else ([], p))"

fun insertion_swaps :: "(nat \<Rightarrow> nat \<Rightarrow> bool) \<Rightarrow> nat list \<Rightarrow> nat list \<Rightarrow> (nat \<times> nat) list" where
  "insertion_swaps lt [] p = []"
| "insertion_swaps lt (i # is) p =
     (let (sw, p') = sink_swaps lt i p
      in sw @ insertion_swaps lt is p')"

definition insertionSort :: "(nat \<Rightarrow> nat \<Rightarrow> bool) \<Rightarrow> nat \<Rightarrow> (nat \<times> nat) list" where
  "insertionSort lt n = insertion_swaps lt [1..<n] [0..<n]"

definition sample_library :: "real library" where
  "sample_library = \<lparr>float_mul = (*), float_less = (<), sort_swaps = insertionSort\<rparr>"

section \<open>Properties of the session context\<close>

lemma requests_once: "once s \<Longrightarrow> requests cs s = s"
  by (induction cs arbitrary: s) (auto simp: cancelWithError_def)

text \<open>
  Claim C1.  Teardown runs at most once for a session context.  Take a live context
  (its \<^verbatim>\<open>sync.Once\<close> has not fired) and any nonempty sequence of teardown requests,
  whatever their causes.  The first request decides everything: the state after
  all of them is the state after the first one alone, the recorded error is the
  error of the first cause, the done channel is closed, the trace has gained
  exactly one destroy call and exactly one stored error, and any further
  \<^verbatim>\<open>cancelWithError\<close> leaves the whole state as it is.
\<close>

theorem teardown_at_most_once:
  assumes "\<not> once s"
  shows "requests ((c, r) # cs) s = cancelWithError r (cause_error c) s
       \<and> Err (requests ((c, r) # cs) s) = Some (cause_error c)
       \<and> Done (requests ((c, r) # cs) s)
       \<and> length (filter is_destroy (trace (requests ((c, r) # cs) s)))
           = length (filter is_destroy (trace s)) + 1
       \<and> length (filter is_store (trace (requests ((c, r) # cs) s)))
           = length (filter is_store (trace s)) + 1
       \<and> (\<forall>r' e'. cancelWithError r' e' (requests ((c, r) # cs) s) = requests ((c, r) # cs) s)"
proof -
  have o: "once (cancelWithError r (cause_error c) s)"
    by (simp add: cancelWithError_def)
  have eq: "requests ((c, r) # cs) s = cancelWithError r (cause_error c) s"
    using o by (simp add: requests_once)
  show ?thesis
    unfolding eq using assms by (simp add: cancelWithError_def Err_def Done_def)
qed

theorem teardown_at_most_once_witness:
  "\<not> once sample_ctx
   \<and> Err (requests [(ParentTermination DeadlineExceeded, None),
                     (ExplicitCancel, Some (RequestError ''agent down'')),
                     (RenewalFailure (RequestError ''renew''), None)] sample_ctx)
       = Some DeadlineExceeded
   \<and> length (filter is_destroy (trace (requests [(ParentTermination DeadlineExceeded, None),
                     (ExplicitCancel, Some (RequestError ''agent down'')),
                     (RenewalFailure (RequestError ''renew''), None)] sample_ctx))) = 1"
proof -
  have h: "\<not> once sample_ctx"
    by (simp add: sample_ctx_def newSessionCtx_def)
  have t: "trace sample_ctx = []"
    by (simp add: sample_ctx_def newSessionCtx_def)
  note th = teardown_at_most_once [OF h, of "ParentTermination DeadlineExceeded" None
        "[(ExplicitCancel, Some (RequestError ''agent down'')),
          (RenewalFailure (RequestError ''renew''), None)]"]
  show ?thesis
    using h t th [THEN conjunct2, THEN conjunct1]
      th [THEN conjunct2, THEN conjunct2, THEN conjunct2, THEN conjunct1]
    by (simp del: requests.simps)
qed

text \<open>
  Claim C2.  One tick of the renewal loop at time \<open>now\<close>.  If the renew succeeds,
  the loop goes on with the deadline \<open>now + TTL\<close>.  If it fails and \<open>now\<close> is before
  the deadline, the loop goes on with the same deadline, and the context is as it
  was but for the renew call in its trace.  If it fails and \<open>now\<close> is at or past the
  deadline, the loop returns after \<^verbatim>\<open>cancelWithError\<close> with the renew error; on a
  context that was live this error becomes the terminal error and the done channel
  is closed.
\<close>

theorem renewal_tick:
  "iteration timeout (SelectTick now None r) deadline s
     = Some (Continue (s\<lparr>trace := trace s @ [RenewCall SessionCtx timeout (id_of s) None]\<rparr>)
              (now + sint (TTL (session s))))
   \<and> (now < deadline \<longrightarrow>
        iteration timeout (SelectTick now (Some e) r) deadline s
          = Some (Continue (s\<lparr>trace := trace s @ [RenewCall SessionCtx timeout (id_of s) (Some e)]\<rparr>)
                   deadline))
   \<and> (deadline \<le> now \<longrightarrow>
        iteration timeout (SelectTick now (Some e) r) deadline s
          = Some (Return (cancelWithError r e
                   (s\<lparr>trace := trace s @ [RenewCall SessionCtx timeout (id_of s) (Some e)]\<rparr>)))
        \<and> (\<not> once s \<longrightarrow>
             Err (cancelWithError r e
                   (s\<lparr>trace := trace s @ [RenewCall SessionCtx timeout (id_of s) (Some e)]\<rparr>)) = Some e
           \<and> Done (cancelWithError r e
                   (s\<lparr>trace := trace s @ [RenewCall SessionCtx timeout (id_of s) (Some e)]\<rparr>))))"
  by (simp add: time_Add_def time_Before_def cancelWithError_def Err_def Done_def)

theorem renewal_tick_witness:
  "(5::int) < 20 \<and> (20::int) \<le> 25 \<and> \<not> once sample_ctx
   \<and> iteration (10 * Second) (SelectTick 5 (Some (RequestError ''timeout'')) None) 20 sample_ctx
       = Some (Continue (sample_ctx\<lparr>trace := trace sample_ctx @
                  [RenewCall SessionCtx (10 * Second) (id_of sample_ctx) (Some (RequestError ''timeout''))]\<rparr>) 20)
   \<and> iteration (10 * Second) (SelectTick 25 (Some (RequestError ''timeout'')) None) 20 sample_ctx
       = Some (Return (cancelWithError None (RequestError ''timeout'')
                 (sample_ctx\<lparr>trace := trace sample_ctx @
                  [RenewCall SessionCtx (10 * Second) (id_of sample_ctx) (Some (RequestError ''timeout''))]\<rparr>)))
   \<and> Err (cancelWithError None (RequestError ''timeout'')
                 (sample_ctx\<lparr>trace := trace sample_ctx @
                  [RenewCall SessionCtx (10 * Second) (id_of sample_ctx) (Some (RequestError ''timeout''))]\<rparr>))
       = Some (RequestError ''timeout'')"
proof -
  have h: "\<not> once sample_ctx"
    by (simp add: sample_ctx_def newSessionCtx_def)
  show ?thesis
    using h
      renewal_tick [of "10 * Second" 5 None 20 sample_ctx "RequestError ''timeout''"]
      renewal_tick [of "10 * Second" 25 None 20 sample_ctx "RequestError ''timeout''"]
    by (simp del: iteration.simps)
qed

text \<open>
  Claim C5.  Teardown of a live context, whatever asked for it, appends to the trace,
  in this order: the terminal error stored, the done channel closed, and a destroy
  call under a context derived from the background context, with the lock-delay as
  its timeout and the session identifier as its argument.  The answer \<open>r\<close> of the
  agent to the destroy call is arbitrary: also when it is a failure the terminal
  error is the cause \<open>e\<close> and the context is done.
\<close>

theorem teardown_order:
  "\<not> once s \<Longrightarrow>
   trace (cancelWithError r e s)
     = trace s @ [StoreErr e, CloseDone,
                  DestroyCall Background (LockDelay (session s)) (ID (session s)) r]
   \<and> Err (cancelWithError r e s) = Some e
   \<and> Done (cancelWithError r e s)
   \<and> once (cancelWithError r e s)"
  by (simp add: cancelWithError_def Err_def Done_def id_of_def)

theorem teardown_order_witness:
  "\<not> once sample_ctx
   \<and> trace (cancelWithError (Some (RequestError ''agent down'')) Canceled sample_ctx)
     = [StoreErr Canceled, CloseDone,
        DestroyCall Background (15 * Second) ''sid-1'' (Some (RequestError ''agent down''))]
   \<and> Err (cancelWithError (Some (RequestError ''agent down'')) Canceled sample_ctx) = Some Canceled
   \<and> Done (cancelWithError (Some (RequestError ''agent down'')) Canceled sample_ctx)"
proof -
  have h: "\<not> once sample_ctx"
    by (simp add: sample_ctx_def newSessionCtx_def)
  have t: "trace sample_ctx = []" "ID (session sample_ctx) = ''sid-1''"
    "LockDelay (session sample_ctx) = 15 * Second"
    by (simp_all add: sample_ctx_def newSessionCtx_def sample_session_def)
  show ?thesis
    using h t teardown_order [OF h, of "Some (RequestError ''agent down'')" Canceled]
    by simp
qed

text \<open>
  Claim C6.  When the create request fails with error \<open>e\<close>, \<^verbatim>\<open>WithSession\<close> returns
  the error context of the parent and \<open>e\<close>: it is done and its error is \<open>e\<close>.  The only
  effect of the call is the create request; no renewal task is started.
\<close>

theorem create_failure:
  "snd answer = Some e \<Longrightarrow>
   derived_Done (fst (WithSession seconds now answer c sess))
   \<and> derived_Err (fst (WithSession seconds now answer c sess)) = Some e
   \<and> fst (WithSession seconds now answer c sess) = errorContext c e
   \<and> snd (WithSession seconds now answer c sess)
       = [CreateCall ParentCtx (LockDelay (defaults sess))
            (createRequest seconds (defaults sess)) (Some e)]
   \<and> (\<forall>d. GoRun d \<notin> set (snd (WithSession seconds now answer c sess)))"
  by (simp add: WithSession_def errorContext_def Let_def)

theorem create_failure_witness:
  "snd ('''', Some (RequestError ''PUT /v1/session/create: 500'')) = Some (RequestError ''PUT /v1/session/create: 500'')
   \<and> derived_Done (fst (WithSession (\<lambda>d. ''30s'') 0 ('''', Some (RequestError ''PUT /v1/session/create: 500''))
         sample_parent sample_session))
   \<and> derived_Err (fst (WithSession (\<lambda>d. ''30s'') 0 ('''', Some (RequestError ''PUT /v1/session/create: 500''))
         sample_parent sample_session))
       = Some (RequestError ''PUT /v1/session/create: 500'')"
proof -
  have h: "snd ('''', Some (RequestError ''PUT /v1/session/create: 500'')) = Some (RequestError ''PUT /v1/session/create: 500'')"
    by simp
  show ?thesis
    using h create_failure [OF h, of "\<lambda>d. ''30s''" 0 sample_parent sample_session]
    by blast
qed

text \<open>
  Claim C9.  A renew that succeeds at a tick at or past the expiry deadline does not
  end the session: the task keeps waiting, with the deadline moved to the time of
  the tick plus the TTL; the done channel and the error are as before and no
  destroy call is issued.
\<close>

theorem late_success_revives:
  "deadline \<le> now \<Longrightarrow>
   step timeout (Select (SelectTick now None r)) (s, Waiting deadline)
     = Some (s\<lparr>trace := trace s @ [RenewCall SessionCtx timeout (id_of s) None]\<rparr>,
             Waiting (now + sint (TTL (session s))))
   \<and> Done (s\<lparr>trace := trace s @ [RenewCall SessionCtx timeout (id_of s) None]\<rparr>) = Done s
   \<and> Err (s\<lparr>trace := trace s @ [RenewCall SessionCtx timeout (id_of s) None]\<rparr>) = Err s
   \<and> filter is_destroy (trace s @ [RenewCall SessionCtx timeout (id_of s) None])
       = filter is_destroy (trace s)"
  by (simp add: time_Add_def Done_def Err_def)

theorem late_success_revives_witness:
  "(30000000000::int) \<le> 30000000001
   \<and> step (10 * Second) (Select (SelectTick 30000000001 None None)) (sample_ctx, Waiting 30000000000)
     = Some (sample_ctx\<lparr>trace := [RenewCall SessionCtx (10 * Second) ''sid-1'' None]\<rparr>,
             Waiting 60000000001)
   \<and> \<not> Done sample_ctx \<and> Err sample_ctx = None"
proof -
  have a: "(30000000000::int) \<le> 30000000001" by simp
  have t: "trace sample_ctx = []" "id_of sample_ctx = ''sid-1''"
    "sint (TTL (session sample_ctx)) = 30000000000"
    "\<not> Done sample_ctx" "Err sample_ctx = None"
    by (simp_all add: sample_ctx_def newSessionCtx_def id_of_def sample_session_def Second_def Done_def Err_def)
  show ?thesis
    using t late_success_revives [OF a, of "10 * Second" None sample_ctx]
    by (simp del: step.simps)
qed

text \<open>
  Claim C10.  The session context answers \<^verbatim>\<open>Deadline\<close> with the deadline of its
  parent, also after teardown has closed its own done channel, and \<^verbatim>\<open>Value\<close> for any
  key other than \<open>SessionKey\<close> with the value of its parent; \<open>SessionKey\<close> gives the
  session, and \<^verbatim>\<open>Done\<close> and \<^verbatim>\<open>Err\<close> read the context's own channel and error.
\<close>

theorem accessors_delegate:
  "Deadline s = ctx_Deadline (ctx s)
   \<and> Deadline (cancelWithError r e s) = ctx_Deadline (ctx s)
   \<and> (k \<noteq> SessionKey \<longrightarrow> Value s k = ctx_Value (ctx s) k)
   \<and> (k \<noteq> SessionKey \<longrightarrow> Value (cancelWithError r e s) k = ctx_Value (ctx s) k)
   \<and> Value s SessionKey = SessionValue (session s)
   \<and> Done s = done_ch s \<and> Err s = err s"
  by (simp add: Deadline_def Value_def Done_def Err_def cancelWithError_def)

theorem accessors_delegate_witness:
  "UserKey ''user'' \<noteq> (SessionKey :: string key)
   \<and> Value sample_ctx (UserKey ''user'') = UserValue ''alice''
   \<and> Deadline (cancelWithError None Canceled sample_ctx) = (90000000000, True)
   \<and> Done (cancelWithError None Canceled sample_ctx)"
proof -
  have t: "ctx sample_ctx = sample_parent" "\<not> once sample_ctx"
    by (simp_all add: sample_ctx_def newSessionCtx_def)
  show ?thesis
    using t accessors_delegate [of sample_ctx None Canceled "UserKey ''user''"]
    by (simp add: sample_parent_def cancelWithError_def Done_def)
qed

subsection \<open>The renewal task as a whole\<close>

lemma cancelWithError_session: "session (cancelWithError r e s) = session s"
  by (simp add: cancelWithError_def)

lemma cancelWithError_renews:
  "RenewCall og d i rr \<in> set (trace (cancelWithError r e s)) \<longleftrightarrow> RenewCall og d i rr \<in> set (trace s)"
  by (simp add: cancelWithError_def)

lemma cancelWithError_trace_mono: "x \<in> set (trace s) \<Longrightarrow> x \<in> set (trace (cancelWithError r e s))"
  by (simp add: cancelWithError_def)

lemma renews_okD:
  assumes "renews_ok T s" "RenewCall og d i rr \<in> set (trace s)"
  shows "og = SessionCtx \<and> d = T \<and> i = ID (session s)"
proof -
  from assms have "renew_from T (ID (session s)) (RenewCall og d i rr)"
    unfolding renews_ok_def list_all_iff by (rule bspec)
  then show ?thesis by simp
qed

lemma iteration_inv:
  assumes "iteration timeout c deadline s = Some out" "renews_ok timeout s" "x \<in> set (trace s)"
  shows "case out of
           Continue s' d' \<Rightarrow> session s' = session s \<and> renews_ok timeout s' \<and> x \<in> set (trace s')
         | Return s' \<Rightarrow> session s' = session s \<and> renews_ok timeout s' \<and> x \<in> set (trace s')"
  using assms
  by (cases c)
     (auto simp: renews_ok_def cancelWithError_def id_of_def Let_def
           split: if_splits option.splits)

lemma step_inv:
  assumes "step timeout ev (s, t) = Some (s', t')" "renews_ok timeout s" "x \<in> set (trace s)"
  shows "session s' = session s \<and> renews_ok timeout s' \<and> x \<in> set (trace s')"
proof (cases ev)
  case (Select c)
  show ?thesis
  proof (cases t)
    case (Waiting deadline)
    with Select assms(1) obtain out where o: "iteration timeout c deadline s = Some out"
      by (auto split: option.splits)
    from iteration_inv [OF o assms(2,3)] o Select Waiting assms(1) show ?thesis
      by (cases out) (auto simp: renews_ok_def)
  next
    case Returned
    with Select assms(1) show ?thesis by simp
  qed
next
  case (CallerCancels r)
  with assms show ?thesis
    by (auto simp: cancel_def renews_ok_def cancelWithError_def)
next
  case (ParentEnds e)
  with assms show ?thesis
    by (auto simp: renews_ok_def split: if_splits)
qed

lemma steps_inv:
  "steps timeout evs (s, t) = Some (s', t') \<Longrightarrow> renews_ok timeout s \<Longrightarrow> x \<in> set (trace s) \<Longrightarrow>
   session s' = session s \<and> renews_ok timeout s' \<and> x \<in> set (trace s')"
proof (induction evs arbitrary: s t)
  case Nil
  then show ?case by simp
next
  case (Cons ev evs)
  from Cons.prems(1) obtain s1 t1 where
    a: "step timeout ev (s, t) = Some (s1, t1)" and b: "steps timeout evs (s1, t1) = Some (s', t')"
    by (auto split: option.splits)
  from step_inv [OF a Cons.prems(2,3)]
  have c: "session s1 = session s" "renews_ok timeout s1" "x \<in> set (trace s1)" by auto
  from Cons.IH [OF b c(2,3)] c(1) show ?case by simp
qed

text \<open>
  Claim C4.  Take the context that \<^verbatim>\<open>newSessionCtx\<close> returns and any run of its renewal
  task that does not panic, through any schedule of ticks, cancellations and parent
  terminations.  The period \<open>TTL / 3\<close> (truncated) is positive and is the period of
  the ticker; every renew call in the trace was issued under a context derived from
  the session context itself, with that period as its timeout and for the session's
  identifier.  A context derived from the session context is done as soon as the
  session context is.
\<close>

theorem renewal_period:
  assumes "run deadline sched (fst (newSessionCtx now c sess)) = Inr (s', t)"
  shows "0 <s duration_div (TTL sess) 3
       \<and> NewTicker (duration_div (TTL sess) 3) \<in> set (trace s')
       \<and> (\<forall>og d i rr. RenewCall og d i rr \<in> set (trace s') \<longrightarrow>
            og = SessionCtx \<and> d = duration_div (TTL sess) 3 \<and> i = ID sess)
       \<and> (\<forall>x expired. Done x \<longrightarrow> WithTimeout_Done SessionCtx x expired)"
proof -
  let ?s = "fst (newSessionCtx now c sess)"
  let ?T = "duration_div (TTL sess) 3"
  let ?init = "?s\<lparr>trace := trace ?s @ [NewTicker ?T]\<rparr>"
  have sess1: "session ?s = sess"
    by (simp add: newSessionCtx_def)
  have sess2: "trace ?s = []"
    by (simp add: newSessionCtx_def)
  note sess = sess1 sess2
  have pos: "\<not> ?T \<le>s 0"
    using assms unfolding run_def Let_def sess by (auto split: if_splits)
  have st: "steps ?T sched (?init, Waiting deadline) = Some (s', t)"
    using assms pos unfolding run_def Let_def sess by (auto split: if_splits option.splits)
  have ok: "renews_ok ?T ?init" and tick: "NewTicker ?T \<in> set (trace ?init)"
    by (simp_all add: renews_ok_def sess)
  from steps_inv [OF st ok tick] sess
  have "session s' = sess" "renews_ok ?T s'" "NewTicker ?T \<in> set (trace s')"
    by simp_all
  moreover from pos have "0 <s ?T" by (rule signed.not_le [THEN iffD1])
  ultimately show ?thesis
    by (auto simp: WithTimeout_Done_def origin_Done_def dest: renews_okD)
qed

theorem renewal_period_witness:
  "run 30000000000
      [Select (SelectTick 10000000000 None None),
       Select (SelectTick 20000000000 (Some (RequestError ''timeout'')) None)]
      (fst (newSessionCtx 0 sample_parent sample_session))
     = Inr ((fst (newSessionCtx 0 sample_parent sample_session))
              \<lparr>trace := [NewTicker 10000000000,
                         RenewCall SessionCtx 10000000000 ''sid-1'' None,
                         RenewCall SessionCtx 10000000000 ''sid-1'' (Some (RequestError ''timeout''))]\<rparr>,
            Waiting 40000000000)
   \<and> duration_div (TTL sample_session) 3 = 10000000000
   \<and> 0 <s duration_div (TTL sample_session) 3
   \<and> NewTicker (duration_div (TTL sample_session) 3)
       \<in> set (trace ((fst (newSessionCtx 0 sample_parent sample_session))
              \<lparr>trace := [NewTicker 10000000000,
                         RenewCall SessionCtx 10000000000 ''sid-1'' None,
                         RenewCall SessionCtx 10000000000 ''sid-1'' (Some (RequestError ''timeout''))]\<rparr>))"
proof -
  have d: "duration_div (TTL sample_session) 3 = 10000000000"
    by (simp add: duration_div_def sample_session_def Second_def)
  have h: "run 30000000000
      [Select (SelectTick 10000000000 None None),
       Select (SelectTick 20000000000 (Some (RequestError ''timeout'')) None)]
      (fst (newSessionCtx 0 sample_parent sample_session))
     = Inr ((fst (newSessionCtx 0 sample_parent sample_session))
              \<lparr>trace := [NewTicker 10000000000,
                         RenewCall SessionCtx 10000000000 ''sid-1'' None,
                         RenewCall SessionCtx 10000000000 ''sid-1'' (Some (RequestError ''timeout''))]\<rparr>,
            Waiting 40000000000)"
  proof -
    have d': "duration_div 30000000000 3 = 10000000000"
      by (simp add: duration_div_def)
    show ?thesis
      by (simp add: run_def Let_def newSessionCtx_def d' id_of_def time_Add_def time_Before_def
            sample_session_def Second_def word_sle_eq)
  qed
  show ?thesis
    using h d renewal_period [OF h] by blast
qed

subsection \<open>Defaults\<close>

lemma sint_double:
  fixes d :: duration
  assumes "0 <s d" "d <s 2 ^ 62"
  shows "0 <s 2 * d"
proof -
  have a: "0 < sint d" using assms(1) by (simp add: word_sless_alt)
  have "sint (2 ^ 62 :: duration) = 2 ^ 62" by simp
  then have b: "sint d < 2 ^ 62" using assms(2) by (simp add: word_sless_alt)
  have "sint (2 * d) = signed_take_bit 63 (2 * sint d)"
    by (simp add: sint_word_ariths)
  also have "\<dots> = 2 * sint d"
    using a b by (intro signed_take_bit_int_eq_self) auto
  finally show ?thesis using a by (simp add: word_sless_alt)
qed

lemma nonneg_nonzero_pos:
  fixes d :: duration
  shows "0 \<le>s d \<Longrightarrow> d \<noteq> 0 \<Longrightarrow> 0 <s d"
  by (simp add: signed.less_le)

lemma fifteen_seconds: "0 <s 15 * Second" "15 * Second <s 2 ^ 62"
  by (simp_all add: Second_def word_sless_alt)

text \<open>
  Claim C3, as the code has it.  An empty behavior becomes \<open>release\<close>, a zero
  lock-delay becomes 15 seconds and a zero TTL becomes twice the lock-delay (the
  resolved one, in 64-bit arithmetic); a value that is set is kept as it is.  The
  resolved lock-delay is never zero.  When the given lock-delay and TTL are not
  negative and the lock-delay is below \<open>2 ^ 62\<close> nanoseconds, the resolved lock-delay
  and TTL are both positive.  The create request is issued with the resolved
  lock-delay as its timeout and carries the resolved behavior, lock-delay and TTL.
\<close>

theorem defaults_resolved:
  "Behavior (defaults sess) = (if Behavior sess = [] then Release else Behavior sess)
   \<and> LockDelay (defaults sess) = (if LockDelay sess = 0 then 15 * Second else LockDelay sess)
   \<and> TTL (defaults sess) = (if TTL sess = 0 then 2 * LockDelay (defaults sess) else TTL sess)
   \<and> LockDelay (defaults sess) \<noteq> 0
   \<and> (0 \<le>s LockDelay sess \<and> LockDelay sess <s 2 ^ 62 \<and> 0 \<le>s TTL sess \<longrightarrow>
        0 <s LockDelay (defaults sess) \<and> 0 <s TTL (defaults sess))
   \<and> hd (snd (WithSession seconds now answer c sess))
       = CreateCall ParentCtx (LockDelay (defaults sess))
           \<lparr>cfgName = Name sess, cfgBehavior = Behavior (defaults sess),
            cfgLockDelay = LockDelay (defaults sess), cfgTTL = seconds (TTL (defaults sess))\<rparr>
           (snd answer)"
proof -
  have b: "Behavior (defaults sess) = (if Behavior sess = [] then Release else Behavior sess)"
    by (simp add: defaults_def Let_def)
  have l: "LockDelay (defaults sess) = (if LockDelay sess = 0 then 15 * Second else LockDelay sess)"
    by (simp add: defaults_def Let_def)
  have t: "TTL (defaults sess) = (if TTL sess = 0 then 2 * LockDelay (defaults sess) else TTL sess)"
    by (simp add: defaults_def Let_def)
  have n: "Name (defaults sess) = Name sess"
    by (simp add: defaults_def Let_def)
  have nz: "LockDelay (defaults sess) \<noteq> 0"
    unfolding l by (simp add: Second_def)
  have pos: "0 <s LockDelay (defaults sess) \<and> 0 <s TTL (defaults sess)"
    if h: "0 \<le>s LockDelay sess" "LockDelay sess <s 2 ^ 62" "0 \<le>s TTL sess"
  proof -
    have p: "0 <s LockDelay (defaults sess)" "LockDelay (defaults sess) <s 2 ^ 62"
      unfolding l using h fifteen_seconds by (auto intro: nonneg_nonzero_pos)
    have "0 <s TTL (defaults sess)"
    proof (cases "TTL sess = 0")
      case True
      then show ?thesis unfolding t using sint_double [OF p] by simp
    next
      case False
      then show ?thesis unfolding t using h(3) by (simp add: nonneg_nonzero_pos)
    qed
    with p show ?thesis by simp
  qed
  have w: "hd (snd (WithSession seconds now answer c sess))
       = CreateCall ParentCtx (LockDelay (defaults sess))
           \<lparr>cfgName = Name sess, cfgBehavior = Behavior (defaults sess),
            cfgLockDelay = LockDelay (defaults sess), cfgTTL = seconds (TTL (defaults sess))\<rparr>
           (snd answer)"
    by (simp add: WithSession_def Let_def createRequest_def n split: option.splits prod.splits)
  from b l t nz pos w show ?thesis by blast
qed

theorem defaults_resolved_witness:
  "0 \<le>s (0 :: duration) \<and> (0 :: duration) <s 2 ^ 62
   \<and> LockDelay (defaults \<lparr>Client = None, Name = ''lock'', ID = [], Behavior = [], LockDelay = 0, TTL = 0\<rparr>)
       = 15 * Second
   \<and> TTL (defaults \<lparr>Client = None, Name = ''lock'', ID = [], Behavior = [], LockDelay = 0, TTL = 0\<rparr>)
       = 2 * (15 * Second)
   \<and> Behavior (defaults \<lparr>Client = None, Name = ''lock'', ID = [], Behavior = [], LockDelay = 0, TTL = 0\<rparr>)
       = Release
   \<and> 0 <s TTL (defaults \<lparr>Client = None, Name = ''lock'', ID = [], Behavior = [], LockDelay = 0, TTL = 0\<rparr>)"
proof -
  have h: "0 \<le>s (0 :: duration)" "(0 :: duration) <s 2 ^ 62"
    by (simp_all add: word_sless_alt)
  show ?thesis
    using h defaults_resolved [of "\<lparr>Client = None, Name = ''lock'', ID = [], Behavior = [], LockDelay = 0, TTL = 0\<rparr>"
        "\<lambda>d. ''30s''" 0 "(''sid-1'', None)" sample_parent]
    by (elim conjE) simp
qed

text \<open>
  Claim C3, as the spec states it, fails on a negative lock-delay: it is not zero, so
  it is kept, and the TTL derived from it is negative too.  It also fails on the
  lock-delay \<open>- 2 ^ 63\<close> nanoseconds, whose double wraps around to zero.
\<close>

theorem defaults_not_positive:
  "\<not> 0 <s LockDelay (defaults \<lparr>Client = None, Name = [], ID = [], Behavior = [],
                                 LockDelay = - 1, TTL = 0\<rparr>)
   \<and> \<not> 0 <s TTL (defaults \<lparr>Client = None, Name = [], ID = [], Behavior = [],
                                 LockDelay = - 1, TTL = 0\<rparr>)
   \<and> TTL (defaults \<lparr>Client = None, Name = [], ID = [], Behavior = [],
                      LockDelay = 9223372036854775808, TTL = 0\<rparr>) = 0"
  by (simp add: defaults_def Let_def word_sless_alt)

section \<open>Properties of the balancers\<close>

subsection \<open>What the shuffles keep\<close>






















subsection \<open>Rotation\<close>

lemma consecutive_RoundRobin:
  "es \<noteq> [] \<Longrightarrow>
   consecutive n lib (RoundRobin c) name es src
     = (map (\<lambda>i. rotated ((c + 1 + i) mod length es) es) [0..<n], RoundRobin (c + n))"
proof (induction n arbitrary: c)
  case 0
  then show ?case by simp
next
  case (Suc n)
  have u: "[0..<Suc n] = 0 # map Suc [0..<n]"
    by (simp add: upt_conv_Cons map_Suc_upt del: upt_Suc)
  show ?case
    using Suc.prems Suc.IH [OF Suc.prems, of "c + 1"]
    by (simp add: u del: upt_Suc)
qed

lemma shifted_inj:
  assumes le: "j \<le> i" and lt: "i < N" and eq: "(a + i) mod N = (a + j) mod N"
  shows "i = (j::nat)"
proof -
  have "a + j \<le> a + i" using le by simp
  then have "N dvd (a + i) - (a + j)"
    using eq by (rule mod_eq_dvd_iff_nat [THEN iffD1])
  then have dv: "N dvd i - j" by simp
  have "i - j < N" using lt by simp
  with dv have "i - j = 0"
    using dvd_imp_le [of N "i - j"] by (cases "i - j = 0") simp_all
  with le show ?thesis by simp
qed

lemma shifted_offsets:
  assumes "0 < N"
  shows "mset (map (\<lambda>i. (a + i) mod N) [0..<N]) = mset [0..<N]"
proof -
  have inj: "inj_on (\<lambda>i. (a + i) mod N) {0..<N}"
  proof (rule inj_onI)
    fix i j
    assume i: "i \<in> {0..<N}" and j: "j \<in> {0..<N}" and e: "(a + i) mod N = (a + j) mod N"
    show "i = j"
    proof (cases "j \<le> i")
      case True
      from True _ e show ?thesis by (rule shifted_inj) (use i in simp)
    next
      case False
      then have "i \<le> j" by simp
      from this _ e [symmetric] have "j = i" by (rule shifted_inj) (use j in simp)
      then show ?thesis by simp
    qed
  qed
  have sub: "(\<lambda>i. (a + i) mod N) ` {0..<N} \<subseteq> {0..<N}"
    using assms by auto
  have "card ((\<lambda>i. (a + i) mod N) ` {0..<N}) = card {0..<N}"
    using inj by (rule card_image)
  with sub have img: "(\<lambda>i. (a + i) mod N) ` {0..<N} = {0..<N}"
    by (intro card_subset_eq) simp_all
  have di: "distinct (map (\<lambda>i. (a + i) mod N) [0..<N])"
    using inj by (simp add: distinct_map)
  have se: "set (map (\<lambda>i. (a + i) mod N) [0..<N]) = set [0..<N]"
    using img by simp
  have "distinct [0..<N]" by simp
  with di se show ?thesis
    using set_eq_iff_mset_eq_distinct by blast
qed

text \<open>
  Claim C8.  On a nonempty list of length \<open>N\<close>, a call of a rotation whose counter is
  \<open>c\<close> leaves the counter at \<open>c + 1\<close> and returns the list rotated so that the element
  at index \<open>(c + 1) mod N\<close> is first.  \<open>N\<close> consecutive calls on the same list return,
  as a multiset, the \<open>N\<close> rotations of the list by \<open>0, ..., N - 1\<close>: each rotation
  once.
\<close>

text \<open>
  Claim C8.  On a nonempty list of length \<open>N\<close>, a call of a rotation whose counter is
  \<open>c\<close> leaves the counter at \<open>c + 1\<close> and returns the list rotated so that the element
  at index \<open>(c + 1) mod N\<close> is first.  \<open>N\<close> consecutive calls on the same list return,
  as a multiset, the \<open>N\<close> rotations of the list by \<open>0, ..., N - 1\<close>: each rotation
  once.
\<close>

theorem rotation_periodic:
  assumes "es \<noteq> []"
  shows "Balance lib (RoundRobin c) name es src
           = (rotated ((c + 1) mod length es) es, RoundRobin (c + 1), src)
       \<and> hd (rotated ((c + 1) mod length es) es) = es ! ((c + 1) mod length es)
       \<and> mset (fst (consecutive (length es) lib (RoundRobin c) name es src))
           = mset (map (\<lambda>k. rotated k es) [0..<length es])
       \<and> snd (consecutive (length es) lib (RoundRobin c) name es src) = RoundRobin (c + length es)"
proof -
  let ?N = "length es"
  from assms have N: "0 < ?N" by simp
  have one: "Balance lib (RoundRobin c) name es src
           = (rotated ((c + 1) mod ?N) es, RoundRobin (c + 1), src)"
    using assms by simp
  have k: "(c + 1) mod ?N < ?N" using N by simp
  then have first: "hd (rotated ((c + 1) mod ?N) es) = es ! ((c + 1) mod ?N)"
    by (simp add: rotated_def hd_append hd_drop_conv_nth)
  have "mset (fst (consecutive ?N lib (RoundRobin c) name es src))
      = mset (map (\<lambda>k. rotated k es) (map (\<lambda>i. (c + 1 + i) mod ?N) [0..<?N]))"
    by (simp add: consecutive_RoundRobin [OF assms] comp_def)
  also have "\<dots> = image_mset (\<lambda>k. rotated k es) (mset (map (\<lambda>i. (c + 1 + i) mod ?N) [0..<?N]))"
    by (simp only: mset_map)
  also have "\<dots> = image_mset (\<lambda>k. rotated k es) (mset [0..<?N])"
    by (simp only: shifted_offsets [OF N])
  finally have all: "mset (fst (consecutive ?N lib (RoundRobin c) name es src))
      = mset (map (\<lambda>k. rotated k es) [0..<?N])"
    by simp
  have last: "snd (consecutive ?N lib (RoundRobin c) name es src) = RoundRobin (c + ?N)"
    by (simp add: consecutive_RoundRobin [OF assms])
  from one first all last show ?thesis by blast
qed

theorem rotation_periodic_witness:
  "sample_endpoints \<noteq> []
   \<and> map (map eID) (fst (consecutive 3 sample_library (RoundRobin 4) ''test-service''
                          sample_endpoints sample_rand))
       = [[''c'', ''a'', ''b''], [''a'', ''b'', ''c''], [''b'', ''c'', ''a'']]
   \<and> mset (fst (consecutive (length sample_endpoints) sample_library (RoundRobin 4) ''test-service''
                   sample_endpoints sample_rand))
       = mset (map (\<lambda>k. rotated k sample_endpoints) [0..<length sample_endpoints])"
proof -
  have h: "sample_endpoints \<noteq> []"
    by (simp add: sample_endpoints_def)
  have v: "map (map eID) (fst (consecutive 3 sample_library (RoundRobin 4) ''test-service''
                                 sample_endpoints sample_rand))
       = [[''c'', ''a'', ''b''], [''a'', ''b'', ''c''], [''b'', ''c'', ''a'']]"
    by code_simp
  note th = rotation_periodic [OF h, of sample_library 4 "''test-service''" sample_rand]
  from th have m: "mset (fst (consecutive (length sample_endpoints) sample_library (RoundRobin 4)
                   ''test-service'' sample_endpoints sample_rand))
       = mset (map (\<lambda>k. rotated k sample_endpoints) [0..<length sample_endpoints])"
    by (elim conjE)
  from h v m show ?thesis by (intro conjI)
qed

end
